theory Spec2Isabelle
  imports Complex_Main "HOL-Library.Multiset"
begin

section \<open>JavaScript strings and primitive values\<close>

text \<open>
  A JavaScript string is a sequence of UTF-16 code units; \<open>length\<close>, \<open>split('')\<close> and
  indexing all count code units. A code unit is modelled as a natural number, and an
  ASCII literal of the source is written \<open>lit ''...''\<close>.
\<close>

type_synonym jsstring = "nat list"

definition lit :: "string \<Rightarrow> jsstring" where
  "lit s = map of_char s"

text \<open>
  The primitive values that reach \<open>yap\<close>: \<open>undefined\<close>, \<open>null\<close>, booleans (a CLI flag
  without a value is \<open>true\<close>), strings, and Numbers. \<open>JInt x\<close> is the Number with the
  integer value \<open>x\<close>. Fractions, NaN and the infinities are not represented as inputs
  (NaN as a result of \<open>parseInt\<close> is \<open>None\<close> below).
\<close>

datatype jsval = JUndefined | JNull | JBool bool | JInt int | JStr jsstring

text \<open>
  What the program takes from the JavaScript engine and its tables, and is not part of
  the program: the Unicode case tables for the code points from U+0080 on (an entry is a
  list of code points, since one character can map to several), and the exponent
  notation in which a Number of magnitude \<open>10^21\<close> or more prints (\<open>String(1e21)\<close> is
  \<open>1e+21\<close>). They are parameters of the model; ASCII case conversion and the printing of
  smaller integers are written out below.
\<close>

record engine =
  upper_tbl :: "nat \<Rightarrow> nat list"
  lower_tbl :: "nat \<Rightarrow> nat list"
  big_number :: "nat \<Rightarrow> jsstring"

function digits :: "nat \<Rightarrow> jsstring" where
  "digits m = (if m < 10 then [48 + m] else digits (m div 10) @ [48 + m mod 10])"
  by pat_completeness auto
termination
  by (relation "measure id") auto

declare digits.simps [simp del]

text \<open>
  The string of a non-negative integer Number: plain decimal digits below \<open>10^21\<close>, the
  engine's exponent notation from there on.
\<close>

definition number_string :: "engine \<Rightarrow> nat \<Rightarrow> jsstring" where
  "number_string u m = (if m < 1000000000000000000000 then digits m else big_number u m)"

text \<open>\<open>String(v)\<close>, and the conversion an operand of \<open>+\<close> or the argument of \<open>join\<close> gets.\<close>

fun ToString :: "engine \<Rightarrow> jsval \<Rightarrow> jsstring" where
  "ToString u JUndefined = lit ''undefined''"
| "ToString u JNull = lit ''null''"
| "ToString u (JBool b) = (if b then lit ''true'' else lit ''false'')"
| "ToString u (JInt x) =
     (if x < 0 then lit ''-'' @ number_string u (nat (- x)) else number_string u (nat x))"
| "ToString u (JStr s) = s"

text \<open>Truthiness, and \<open>a || b\<close>.\<close>

fun truthy :: "jsval \<Rightarrow> bool" where
  "truthy JUndefined = False"
| "truthy JNull = False"
| "truthy (JBool b) = b"
| "truthy (JInt x) = (x \<noteq> 0)"
| "truthy (JStr s) = (s \<noteq> [])"

definition js_or :: "jsval \<Rightarrow> jsval \<Rightarrow> jsval" where
  "js_or a b = (if truthy a then a else b)"

text \<open>A destructuring default \<open>{ x = d } = opts\<close>: it applies when the property is \<open>undefined\<close>.\<close>

definition dflt :: "jsval \<Rightarrow> jsval \<Rightarrow> jsval" where
  "dflt v d = (if v = JUndefined then d else v)"

subsection \<open>parseInt with radix 10\<close>

text \<open>
  \<open>parseInt(v, 10)\<close>: convert to a string, skip leading white space, read an optional
  sign, then the longest run of decimal digits; no digit gives NaN, here \<open>None\<close>. The
  result \<open>-0\<close> is \<open>Some 0\<close> (both are falsy). A digit string too long for a Number to hold
  exactly is rounded by JavaScript; the model keeps the exact integer, which changes
  nothing once the value is clamped to \<open>[1, 200]\<close>, as every use below does.
\<close>

definition is_ws :: "nat \<Rightarrow> bool" where
  "is_ws c = (c \<in> set [9, 10, 11, 12, 13, 32, 160, 5760, 8232, 8233, 8239, 8287, 12288, 65279]
              \<or> (8192 \<le> c \<and> c \<le> 8202))"

definition is_digit :: "nat \<Rightarrow> bool" where
  "is_digit c = (48 \<le> c \<and> c \<le> 57)"

definition digits_value :: "jsstring \<Rightarrow> nat" where
  "digits_value z = foldl (\<lambda>a d. 10 * a + (d - 48)) 0 z"

definition parseInt :: "engine \<Rightarrow> jsval \<Rightarrow> int option" where
  "parseInt u v =
     (let s = dropWhile is_ws (ToString u v);
          neg = (s \<noteq> [] \<and> hd s = 45);
          s' = (if s \<noteq> [] \<and> (hd s = 43 \<or> hd s = 45) then tl s else s);
          z = takeWhile is_digit s'
      in if z = [] then None
         else Some (if neg then - int (digits_value z) else int (digits_value z)))"

text \<open>\<open>x || d\<close> for a Number \<open>x\<close> that \<open>parseInt\<close> returned: NaN and 0 are falsy.\<close>

definition or_default :: "int option \<Rightarrow> int \<Rightarrow> int" where
  "or_default v d = (case v of None \<Rightarrow> d | Some x \<Rightarrow> if x = 0 then d else x)"

section \<open>Case conversion\<close>

text \<open>
  \<open>toUpperCase\<close> and \<open>toLowerCase\<close> follow the Unicode case tables. The ASCII range is
  written out; beyond it the engine's tables are used.
\<close>

definition upper_cp :: "engine \<Rightarrow> nat \<Rightarrow> nat list" where
  "upper_cp u c = (if 97 \<le> c \<and> c \<le> 122 then [c - 32] else if c < 128 then [c] else upper_tbl u c)"

definition lower_cp :: "engine \<Rightarrow> nat \<Rightarrow> nat list" where
  "lower_cp u c = (if 65 \<le> c \<and> c \<le> 90 then [c + 32] else if c < 128 then [c] else lower_tbl u c)"

definition is_lead :: "nat \<Rightarrow> bool" where
  "is_lead c = (55296 \<le> c \<and> c \<le> 56319)"

definition is_trail :: "nat \<Rightarrow> bool" where
  "is_trail c = (56320 \<le> c \<and> c \<le> 57343)"

definition pair_cp :: "nat \<Rightarrow> nat \<Rightarrow> nat" where
  "pair_cp h l = 65536 + (h - 55296) * 1024 + (l - 56320)"

definition encode_cp :: "nat \<Rightarrow> jsstring" where
  "encode_cp c = (if c < 65536 then [c]
                  else [55296 + (c - 65536) div 1024, 56320 + (c - 65536) mod 1024])"

definition encode :: "nat list \<Rightarrow> jsstring" where
  "encode cps = concat (map encode_cp cps)"

text \<open>The two methods on a string of one code unit, as \<open>altCase\<close> calls them.\<close>

definition toUpperCase1 :: "engine \<Rightarrow> nat \<Rightarrow> jsstring" where
  "toUpperCase1 u c = (if is_lead c \<or> is_trail c then [c] else encode (upper_cp u c))"

definition toLowerCase1 :: "engine \<Rightarrow> nat \<Rightarrow> jsstring" where
  "toLowerCase1 u c = (if is_lead c \<or> is_trail c then [c] else encode (lower_cp u c))"

text \<open>\<open>toUpperCase\<close> on a whole string reads surrogate pairs as one code point.\<close>

fun toUpperCase :: "engine \<Rightarrow> jsstring \<Rightarrow> jsstring" where
  "toUpperCase u [] = []"
| "toUpperCase u [c] = toUpperCase1 u c"
| "toUpperCase u (h # l # s) =
     (if is_lead h \<and> is_trail l then encode (upper_cp u (pair_cp h l)) @ toUpperCase u s
      else toUpperCase1 u h @ toUpperCase u (l # s))"

text \<open>
  The Latin-1 part of the Unicode tables (U+0080 to U+00FF), every other code point left
  as it is: concrete tables for evaluating the definitions. U+00DF (sharp s) has the
  upper-case form \<open>SS\<close>.
\<close>

definition latin1_upper :: "nat \<Rightarrow> nat list" where
  "latin1_upper c =
     (if c = 181 then [924]
      else if c = 223 then [83, 83]
      else if c = 255 then [376]
      else if 224 \<le> c \<and> c \<le> 254 \<and> c \<noteq> 247 then [c - 32]
      else [c])"

definition latin1_lower :: "nat \<Rightarrow> nat list" where
  "latin1_lower c = (if 192 \<le> c \<and> c \<le> 222 \<and> c \<noteq> 215 then [c + 32] else [c])"

text \<open>
  A concrete exponent notation: the decimal digits of the integer without its trailing
  zeros, a point after the first digit when more follow, and the exponent. It is what
  JavaScript prints when these are also the fewest digits that identify the Number, as
  for \<open>10^21\<close>.
\<close>

definition exponent_notation :: "nat \<Rightarrow> jsstring" where
  "exponent_notation m =
     (let ds = digits m;
          sig = rev (dropWhile (\<lambda>c. c = 48) (rev ds))
      in hd sig # (if tl sig = [] then [] else 46 # tl sig)
           @ lit ''e+'' @ digits (length ds - 1))"

definition latin1 :: engine where
  "latin1 = \<lparr>upper_tbl = latin1_upper, lower_tbl = latin1_lower,
             big_number = exponent_notation\<rparr>"

section \<open>The transform function\<close>

definition PACKAGE_MAX_REPEAT :: int where
  "PACKAGE_MAX_REPEAT = 200"

text \<open>
  \<open>altCase(s, i)\<close>: \<open>s.split('')\<close> gives the code units, \<open>map\<close> passes each with its index,
  \<open>join('')\<close> concatenates the results.
\<close>

definition altCase :: "engine \<Rightarrow> jsstring \<Rightarrow> nat \<Rightarrow> jsstring" where
  "altCase u s i =
     concat (map (\<lambda>(idx, ch). if idx mod 2 = i mod 2 then toUpperCase1 u ch else toLowerCase1 u ch)
                 (enumerate 0 s))"

text \<open>
  \<open>t.split('').sort(() => Math.random() - 0.5).join('')\<close>. The random source is the
  sequence of values \<open>Math.random()\<close> returns, \<open>rnd k\<close> being the \<open>k\<close>-th; the state is the
  number of values drawn so far. The comparator ignores its arguments and returns the
  next value minus one half (the floating-point difference has the sign of the exact
  one). \<open>Array.prototype.sort\<close> is the engine's; it is modelled as an insertion sort that
  places an element before the first one the comparator puts it before (a negative
  result).
\<close>

fun insert_random :: "(nat \<Rightarrow> real) \<Rightarrow> nat \<Rightarrow> 'a \<Rightarrow> 'a list \<Rightarrow> 'a list \<times> nat" where
  "insert_random rnd k x [] = ([x], k)"
| "insert_random rnd k x (y # ys) =
     (if rnd k - 1 / 2 < 0 then (x # y # ys, Suc k)
      else (case insert_random rnd (Suc k) x ys of (zs, k') \<Rightarrow> (y # zs, k')))"

fun sort_random :: "(nat \<Rightarrow> real) \<Rightarrow> nat \<Rightarrow> 'a list \<Rightarrow> 'a list \<Rightarrow> 'a list \<times> nat" where
  "sort_random rnd k [] placed = (placed, k)"
| "sort_random rnd k (x # xs) placed =
     (case insert_random rnd k x placed of (placed', k') \<Rightarrow> sort_random rnd k' xs placed')"

text \<open>The \<open>switch (mode)\<close> of the loop body, on the text \<open>t\<close> at repetition \<open>i\<close>.\<close>

definition switch_mode ::
  "engine \<Rightarrow> (nat \<Rightarrow> real) \<Rightarrow> jsval \<Rightarrow> nat \<Rightarrow> nat \<Rightarrow> jsstring \<Rightarrow> jsstring \<times> nat" where
  "switch_mode u rnd mode i k t =
     (if mode = JStr (lit ''caps'') then (toUpperCase u t, k)
      else if mode = JStr (lit ''shuffle'') then sort_random rnd k t []
      else if mode = JStr (lit ''funny'')
        then (altCase u t i @ (if i mod 2 = 0 then lit ''!'' else lit ''...''), k)
      else (t, k))"

text \<open>The \<open>for\<close> loop: \<open>i\<close> counts up to \<open>safeN\<close>, each round pushes one piece.\<close>

function yap_loop ::
  "engine \<Rightarrow> (nat \<Rightarrow> real) \<Rightarrow> jsval \<Rightarrow> jsval \<Rightarrow> jsval \<Rightarrow> jsval \<Rightarrow> nat \<Rightarrow> nat \<Rightarrow> nat
     \<Rightarrow> jsstring list \<Rightarrow> jsstring list \<times> nat" where
  "yap_loop u rnd text mode prefix suffix safeN i k pieces =
     (if i < safeN then
        (case switch_mode u rnd mode i k (ToString u text) of
           (t, k') \<Rightarrow>
             yap_loop u rnd text mode prefix suffix safeN (Suc i) k'
               (pieces @ [ToString u prefix @ t @ ToString u suffix]))
      else (pieces, k))"
  by pat_completeness auto
termination
  by (relation "measure (\<lambda>(u, rnd, text, mode, prefix, suffix, safeN, i, k, pieces). safeN - i)")
     auto

declare yap_loop.simps [simp del]

text \<open>\<open>pieces.join(sep)\<close> on an array of strings.\<close>

fun join :: "jsstring \<Rightarrow> jsstring list \<Rightarrow> jsstring" where
  "join sep [] = []"
| "join sep [p] = p"
| "join sep (p # q # ps) = p @ sep @ join sep (q # ps)"

record yap_opts =
  opt_n :: jsval
  opt_sep :: jsval
  opt_mode :: jsval
  opt_prefix :: jsval
  opt_suffix :: jsval

text \<open>
  The parameter list \<open>yap(text = '', opts = {})\<close> and the destructuring of \<open>opts\<close> with
  its defaults, lines 36 to 43.
\<close>

definition destructure :: "yap_opts \<Rightarrow> yap_opts" where
  "destructure opts =
     \<lparr>opt_n = dflt (opt_n opts) (JInt 3),
      opt_sep = dflt (opt_sep opts) (JStr (lit '' '')),
      opt_mode = dflt (opt_mode opts) (JStr (lit ''echo'')),
      opt_prefix = dflt (opt_prefix opts) (JStr []),
      opt_suffix = dflt (opt_suffix opts) (JStr [])\<rparr>"

text \<open>The effective count of \<open>yap\<close>, line 45 of the source.\<close>

definition yap_safeN :: "engine \<Rightarrow> jsval \<Rightarrow> nat" where
  "yap_safeN u n = nat (max 1 (min PACKAGE_MAX_REPEAT (or_default (parseInt u n) 3)))"

text \<open>The pieces \<open>yap\<close> builds, and \<open>yap\<close> itself; both also return the random state.\<close>

definition yap_pieces ::
  "engine \<Rightarrow> (nat \<Rightarrow> real) \<Rightarrow> nat \<Rightarrow> jsval \<Rightarrow> yap_opts \<Rightarrow> jsstring list \<times> nat" where
  "yap_pieces u rnd k text opts =
     yap_loop u rnd (dflt text (JStr []))
       (opt_mode (destructure opts)) (opt_prefix (destructure opts)) (opt_suffix (destructure opts))
       (yap_safeN u (opt_n (destructure opts))) 0 k []"

definition yap :: "engine \<Rightarrow> (nat \<Rightarrow> real) \<Rightarrow> nat \<Rightarrow> jsval \<Rightarrow> yap_opts \<Rightarrow> jsstring \<times> nat" where
  "yap u rnd k text opts =
     (case yap_pieces u rnd k text opts of
        (pieces, k') \<Rightarrow> (join (ToString u (opt_sep (destructure opts))) pieces, k'))"

text \<open>
  For stating what the loop builds: the random state at the start of repetition \<open>j\<close>, and
  the text the \<open>switch\<close> produces in that repetition.
\<close>

primrec rnd_before :: "engine \<Rightarrow> (nat \<Rightarrow> real) \<Rightarrow> jsval \<Rightarrow> jsstring \<Rightarrow> nat \<Rightarrow> nat \<Rightarrow> nat" where
  "rnd_before u rnd mode t k 0 = k"
| "rnd_before u rnd mode t k (Suc j) = snd (switch_mode u rnd mode j (rnd_before u rnd mode t k j) t)"

definition piece_text ::
  "engine \<Rightarrow> (nat \<Rightarrow> real) \<Rightarrow> jsval \<Rightarrow> jsstring \<Rightarrow> nat \<Rightarrow> nat \<Rightarrow> jsstring" where
  "piece_text u rnd mode t k j = fst (switch_mode u rnd mode j (rnd_before u rnd mode t k j) t)"

text \<open>
  Two random sources for evaluating the definitions: one alternates between 1/4 and 3/4,
  the other always returns 1/2.
\<close>

definition alternating :: "nat \<Rightarrow> real" where
  "alternating k = (if even k then 1 / 4 else 3 / 4)"

definition steady :: "nat \<Rightarrow> real" where
  "steady k = 1 / 2"

section \<open>The integration stub and the bot runner\<close>

text \<open>
  An \<open>async\<close> function returns a promise; the model keeps how it settles. \<open>sleep\<close> always
  resolves; the time it takes is not modelled.
\<close>

datatype 'a promise = Resolved 'a | Rejected jsstring

definition sleep :: "nat \<Rightarrow> unit promise" where
  "sleep ms = Resolved ()"

type_synonym config = "jsstring \<rightharpoonup> jsval"

text \<open>The objects \<open>{ ok, info?, error?, config? }\<close> the three functions return.\<close>

record result =
  ok :: bool
  info :: "jsstring option"
  error :: "jsstring option"
  config :: "config option"

definition integrateWithService :: "jsstring \<Rightarrow> config \<Rightarrow> result promise" where
  "integrateWithService transformedText cfg =
     (case sleep 200 of
        Rejected e \<Rightarrow> Rejected e
      | Resolved _ \<Rightarrow>
          Resolved \<lparr>ok = True,
                    info = Some (lit ''simulated-send (fill integrateWithService with real code)''),
                    error = None, config = None\<rparr>)"

text \<open>
  \<open>startBot\<close> and \<open>stopBot\<close> read and write the module's flag \<open>isRunning\<close>: it is passed
  in and returned. The heartbeat loop \<open>startBot\<close> launches only sleeps while the flag is
  set; it writes nothing and is left out.
\<close>

definition startBot :: "config \<Rightarrow> config \<Rightarrow> bool \<Rightarrow> result promise \<times> bool" where
  "startBot defaultAccount opts isRunning =
     (if isRunning
      then (Resolved \<lparr>ok = False, info = None, error = Some (lit ''bot already running''),
                      config = None\<rparr>, isRunning)
      else (Resolved \<lparr>ok = True, info = Some (lit ''bot started''), error = None,
                      config = Some (defaultAccount ++ opts)\<rparr>, True))"

definition stopBot :: "bool \<Rightarrow> result promise \<times> bool" where
  "stopBot isRunning =
     (if \<not> isRunning
      then (Resolved \<lparr>ok = False, info = None, error = Some (lit ''bot not running''),
                      config = None\<rparr>, isRunning)
      else (Resolved \<lparr>ok = True, info = Some (lit ''bot stopped''), error = None,
                      config = None\<rparr>, False))"

text \<open>A sequence of calls on the flag, each result kept in order.\<close>

datatype bot_call = Start config | Stop

fun run_calls :: "config \<Rightarrow> bot_call list \<Rightarrow> bool \<Rightarrow> result promise list \<times> bool" where
  "run_calls defaultAccount [] isRunning = ([], isRunning)"
| "run_calls defaultAccount (Start opts # cs) isRunning =
     (case startBot defaultAccount opts isRunning of
        (r, isRunning') \<Rightarrow>
          (case run_calls defaultAccount cs isRunning' of (rs, fin) \<Rightarrow> (r # rs, fin)))"
| "run_calls defaultAccount (Stop # cs) isRunning =
     (case stopBot isRunning of
        (r, isRunning') \<Rightarrow>
          (case run_calls defaultAccount cs isRunning' of (rs, fin) \<Rightarrow> (r # rs, fin)))"

section \<open>The HTTP server\<close>

text \<open>
  A request as \<open>url.parse(req.url, true)\<close> presents it: the path, and the query as a map
  from parameter names to their (string) values; a parameter given more than once (an
  array in Node) is not represented. The handler does not read the method.
  The response is the status and headers of \<open>writeHead\<close> and the object that
  \<open>JSON.stringify\<close> serialises into the body.
\<close>

record request =
  pathname :: jsstring
  query :: "jsstring \<rightharpoonup> jsstring"

record envelope =
  env_ok :: bool
  env_payload :: "jsstring option"
  env_sendRes :: "result option"
  env_error :: "jsstring option"

record response =
  status :: nat
  headers :: "(jsstring \<times> jsstring) list"
  body :: envelope

definition qget :: "(jsstring \<rightharpoonup> jsstring) \<Rightarrow> string \<Rightarrow> jsval" where
  "qget q key = (case q (lit key) of None \<Rightarrow> JUndefined | Some v \<Rightarrow> JStr v)"

text \<open>The effective count the handler computes, line 139 of the source.\<close>

definition server_safeN :: "engine \<Rightarrow> jsval \<Rightarrow> int" where
  "server_safeN u n = max 1 (min PACKAGE_MAX_REPEAT (or_default (parseInt u n) 1))"

text \<open>The options object the handler passes to \<open>yap\<close>, lines 130 to 140.\<close>

definition server_opts :: "engine \<Rightarrow> (jsstring \<rightharpoonup> jsstring) \<Rightarrow> yap_opts" where
  "server_opts u q =
     \<lparr>opt_n = JInt (server_safeN u (js_or (js_or (qget q ''n'') (qget q ''count'')) (JInt 1))),
      opt_sep = js_or (qget q ''sep'') (JStr (lit '' '')),
      opt_mode = js_or (qget q ''mode'') (JStr (lit ''echo'')),
      opt_prefix = js_or (qget q ''prefix'') (JStr []),
      opt_suffix = js_or (qget q ''suffix'') (JStr [])\<rparr>"

definition server_msg :: "(jsstring \<rightharpoonup> jsstring) \<Rightarrow> jsval" where
  "server_msg q = js_or (js_or (qget q ''msg'') (qget q ''message'')) (JStr [])"

definition json_headers :: "(jsstring \<times> jsstring) list" where
  "json_headers = [(lit ''Content-Type'', lit ''application/json; charset=utf-8'')]"

text \<open>
  The request handler of \<open>startServer\<close>. The result is the response written, \<open>None\<close> if
  the handler's promise rejects before it writes one, and the random state.
\<close>

definition handler ::
  "engine \<Rightarrow> (nat \<Rightarrow> real) \<Rightarrow> nat \<Rightarrow> config \<Rightarrow> request \<Rightarrow> response option \<times> nat" where
  "handler u rnd k defaultAccount req =
     (if pathname req = lit ''/'' \<or> pathname req = lit ''/yap'' then
        (case yap u rnd k (server_msg (query req)) (server_opts u (query req)) of
           (resultText, k') \<Rightarrow>
             (case integrateWithService resultText defaultAccount of
                Rejected e \<Rightarrow> (None, k')
              | Resolved sendRes \<Rightarrow>
                  (Some \<lparr>status = 200, headers = json_headers,
                         body = \<lparr>env_ok = True, env_payload = Some resultText,
                                 env_sendRes = Some sendRes, env_error = None\<rparr>\<rparr>, k')))
      else (Some \<lparr>status = 404, headers = json_headers,
                  body = \<lparr>env_ok = False, env_payload = None, env_sendRes = None,
                          env_error = Some (lit ''not found'')\<rparr>\<rparr>, k))"

section \<open>The command line\<close>

type_synonym flags = "jsstring \<rightharpoonup> jsval"

definition starts_with :: "jsstring \<Rightarrow> jsstring \<Rightarrow> bool" where
  "starts_with a p = (take (length p) a = p)"

text \<open>
  The argument loop, lines 171 to 194: a flag takes the next argument as its value when
  there is one, it is not empty and does not start with a dash; otherwise the flag is
  \<open>true\<close>.
\<close>

fun parse_args :: "jsstring list \<Rightarrow> flags \<Rightarrow> jsstring list \<Rightarrow> flags \<times> jsstring list" where
  "parse_args [] fl positionals = (fl, positionals)"
| "parse_args (a # rest) fl positionals =
     (if starts_with a (lit ''--'') then
        (case rest of
           [] \<Rightarrow> parse_args rest (fl(drop 2 a \<mapsto> JBool True)) positionals
         | nxt # rest' \<Rightarrow>
             if nxt \<noteq> [] \<and> \<not> starts_with nxt (lit ''-'')
             then parse_args rest' (fl(drop 2 a \<mapsto> JStr nxt)) positionals
             else parse_args rest (fl(drop 2 a \<mapsto> JBool True)) positionals)
      else if starts_with a (lit ''-'') then
        (case rest of
           [] \<Rightarrow> parse_args rest (fl(drop 1 a \<mapsto> JBool True)) positionals
         | nxt # rest' \<Rightarrow>
             if nxt \<noteq> [] \<and> \<not> starts_with nxt (lit ''-'')
             then parse_args rest' (fl(drop 1 a \<mapsto> JStr nxt)) positionals
             else parse_args rest (fl(drop 1 a \<mapsto> JBool True)) positionals)
      else parse_args rest fl (positionals @ [a]))"

definition fget :: "flags \<Rightarrow> string \<Rightarrow> jsval" where
  "fget fl key = (case fl (lit key) of None \<Rightarrow> JUndefined | Some v \<Rightarrow> v)"

text \<open>The options object of the one-shot mode, lines 203 to 209.\<close>

definition cli_opts :: "flags \<Rightarrow> yap_opts" where
  "cli_opts fl =
     \<lparr>opt_n = js_or (js_or (js_or (fget fl ''n'') (fget fl ''N'')) (fget fl ''count'')) (JInt 1),
      opt_sep = js_or (js_or (fget fl ''sep'') (fget fl ''s'')) (JStr (lit '' '')),
      opt_mode = js_or (fget fl ''mode'') (JStr (lit ''echo'')),
      opt_prefix = js_or (fget fl ''prefix'') (JStr []),
      opt_suffix = js_or (fget fl ''suffix'') (JStr [])\<rparr>"

definition cli_text :: "flags \<Rightarrow> jsstring list \<Rightarrow> jsval" where
  "cli_text fl positionals =
     (if length positionals \<noteq> 0 then JStr (join (lit '' '') positionals)
      else js_or (js_or (fget fl ''msg'') (fget fl ''m'')) (JStr []))"

text \<open>
  The one-shot run on the arguments \<open>args\<close>: the line \<open>console.log(result)\<close> prints, or
  \<open>None\<close> when the arguments ask for the server instead.
\<close>

definition cli_main ::
  "engine \<Rightarrow> (nat \<Rightarrow> real) \<Rightarrow> nat \<Rightarrow> jsstring list \<Rightarrow> jsstring option" where
  "cli_main u rnd k args =
     (case parse_args args Map.empty [] of
        (fl, positionals) \<Rightarrow>
          if truthy (js_or (fget fl ''server'') (fget fl ''s'')) then None
          else Some (fst (yap u rnd k (cli_text fl positionals) (cli_opts fl))))"

section \<open>Strings, numbers and parseInt\<close>

lemma lit_simps [simp]: "lit [] = []" "lit (c # cs) = of_char c # lit cs"
  by (simp_all add: lit_def)

lemma digits_nonempty: "digits m \<noteq> []"
  by (subst digits.simps) simp

lemma digits_all_digit: "\<forall>c\<in>set (digits m). is_digit c"
proof (induction m rule: digits.induct)
  case (1 m)
  show ?case
  proof (cases "m < 10")
    case True
    then show ?thesis by (subst digits.simps) (simp add: is_digit_def)
  next
    case False
    have "m mod 10 < 10" by simp
    then have "is_digit (48 + m mod 10)" unfolding is_digit_def by linarith
    with False 1 show ?thesis by (subst digits.simps) simp
  qed
qed

lemma digits_value_append: "digits_value (xs @ [d]) = 10 * digits_value xs + (d - 48)"
  by (simp add: digits_value_def)

lemma digits_value_digits: "digits_value (digits m) = m"
proof (induction m rule: digits.induct)
  case (1 m)
  show ?case
  proof (cases "m < 10")
    case True
    then show ?thesis by (subst digits.simps) (simp add: digits_value_def)
  next
    case False
    with 1 show ?thesis by (subst digits.simps) (simp add: digits_value_append)
  qed
qed

lemma is_digit_not_ws: "is_digit c \<Longrightarrow> \<not> is_ws c"
  by (auto simp: is_digit_def is_ws_def)

lemma hd_digits: "is_digit (hd (digits m))"
  using digits_all_digit [of m] digits_nonempty [of m] by (cases "digits m") auto

lemma parseInt_digits: "parseInt u (JStr (digits m)) = Some (int m)"
proof -
  have ne: "digits m \<noteq> []" by (rule digits_nonempty)
  have hd: "is_digit (hd (digits m))" by (rule hd_digits)
  have dw: "dropWhile is_ws (digits m) = digits m"
    using ne hd is_digit_not_ws by (cases "digits m") auto
  have sg: "hd (digits m) \<noteq> 43" "hd (digits m) \<noteq> 45"
    using hd by (auto simp: is_digit_def)
  have tw: "takeWhile is_digit (digits m) = digits m"
    using digits_all_digit by (simp add: takeWhile_eq_all_conv)
  show ?thesis
    by (simp add: parseInt_def dw sg tw ne digits_value_digits)
qed

lemma parseInt_JInt:
  assumes "\<bar>x\<bar> < 1000000000000000000000"
  shows "parseInt u (JInt x) = Some x"
proof (cases "x < 0")
  case False
  from assms False have "nat x < 1000000000000000000000" by linarith
  then have "number_string u (nat x) = digits (nat x)"
    by (simp add: number_string_def)
  with False show ?thesis using parseInt_digits [of u "nat x"] by (simp add: parseInt_def)
next
  case True
  from assms True have "nat (- x) < 1000000000000000000000" by linarith
  then have ns: "number_string u (nat (- x)) = digits (nat (- x))"
    by (simp add: number_string_def)
  have ne: "digits (nat (- x)) \<noteq> []" by (rule digits_nonempty)
  have tw: "takeWhile is_digit (digits (nat (- x))) = digits (nat (- x))"
    using digits_all_digit by (simp add: takeWhile_eq_all_conv)
  have ws: "\<not> is_ws 45" by (simp add: is_ws_def)
  from True show ?thesis
    by (simp add: parseInt_def ns ws tw ne digits_value_digits)
qed

lemma yap_safeN_bounds: "1 \<le> yap_safeN u n \<and> yap_safeN u n \<le> 200"
  unfolding yap_safeN_def PACKAGE_MAX_REPEAT_def by linarith

lemma yap_safeN_NaN: "parseInt u n = None \<Longrightarrow> yap_safeN u n = 3"
  by (simp add: yap_safeN_def or_default_def PACKAGE_MAX_REPEAT_def)

lemma yap_safeN_zero: "parseInt u n = Some 0 \<Longrightarrow> yap_safeN u n = 3"
  by (simp add: yap_safeN_def or_default_def PACKAGE_MAX_REPEAT_def)

lemma yap_safeN_clamp: "parseInt u n = Some x \<Longrightarrow> x \<noteq> 0 \<Longrightarrow> yap_safeN u n = nat (max 1 (min 200 x))"
  by (simp add: yap_safeN_def or_default_def PACKAGE_MAX_REPEAT_def)

lemma yap_safeN_cases:
  "yap_safeN u n = (case parseInt u n of
                    None \<Rightarrow> 3
                  | Some x \<Rightarrow> if x = 0 then 3 else if x < 1 then 1 else if 200 < x then 200 else nat x)"
  by (simp add: yap_safeN_def or_default_def PACKAGE_MAX_REPEAT_def split: option.splits)

lemma server_safeN_cases:
  "server_safeN u n = (case parseInt u n of
                       None \<Rightarrow> 1
                     | Some x \<Rightarrow> if x < 1 then 1 else if 200 < x then 200 else x)"
  by (simp add: server_safeN_def or_default_def PACKAGE_MAX_REPEAT_def split: option.splits)

lemma server_safeN_bounds: "1 \<le> server_safeN u n \<and> server_safeN u n \<le> 200"
  unfolding server_safeN_def PACKAGE_MAX_REPEAT_def by linarith

lemma yap_safeN_server: "yap_safeN u (JInt (server_safeN u n)) = nat (server_safeN u n)"
  using server_safeN_bounds [of u n]
  by (simp add: yap_safeN_def parseInt_JInt or_default_def PACKAGE_MAX_REPEAT_def)

text \<open>
  From \<open>10^21\<close> on the count is read off the exponent notation: \<open>String(1e21)\<close> is
  \<open>1e+21\<close>, of which \<open>parseInt\<close> reads the 1.
\<close>

lemma yap_safeN_exponent:
  assumes "big_number u 1000000000000000000000 = lit ''1e+21''"
  shows "yap_safeN u (JInt 1000000000000000000000) = 1"
  using assms
  by (simp add: yap_safeN_def parseInt_def or_default_def PACKAGE_MAX_REPEAT_def number_string_def
      is_ws_def is_digit_def digits_value_def)

lemma exponent_notation_1e21: "exponent_notation 1000000000000000000000 = lit ''1e+21''"
  by (simp add: exponent_notation_def digits.simps)

section \<open>The loop of yap\<close>

lemma switch_mode_step:
  "switch_mode u rnd mode j (rnd_before u rnd mode t k j) t
     = (piece_text u rnd mode t k j, rnd_before u rnd mode t k (Suc j))"
  by (simp add: piece_text_def)

lemma yap_loop_pieces:
  "i \<le> safeN \<Longrightarrow>
   yap_loop u rnd text mode p s safeN i (rnd_before u rnd mode (ToString u text) k i) pieces
     = (pieces @ map (\<lambda>j. ToString u p @ piece_text u rnd mode (ToString u text) k j @ ToString u s)
                     [i..<safeN],
        rnd_before u rnd mode (ToString u text) k safeN)"
proof (induction "safeN - i" arbitrary: i pieces)
  case 0
  then have "i = safeN" by simp
  then show ?case by (subst yap_loop.simps) simp
next
  case (Suc d)
  then have lt: "i < safeN" and d: "d = safeN - Suc i" and le: "Suc i \<le> safeN" by simp_all
  have "yap_loop u rnd text mode p s safeN i (rnd_before u rnd mode (ToString u text) k i) pieces
      = yap_loop u rnd text mode p s safeN (Suc i) (rnd_before u rnd mode (ToString u text) k (Suc i))
          (pieces @ [ToString u p @ piece_text u rnd mode (ToString u text) k i @ ToString u s])"
    using lt by (subst yap_loop.simps) (simp add: switch_mode_step del: rnd_before.simps)
  also have "\<dots> = ((pieces @ [ToString u p @ piece_text u rnd mode (ToString u text) k i @ ToString u s])
                    @ map (\<lambda>j. ToString u p @ piece_text u rnd mode (ToString u text) k j @ ToString u s)
                        [Suc i..<safeN],
                  rnd_before u rnd mode (ToString u text) k safeN)"
    by (rule Suc.hyps(1) [OF d le])
  also have "\<dots> = (pieces @ map (\<lambda>j. ToString u p @ piece_text u rnd mode (ToString u text) k j @ ToString u s)
                     [i..<safeN],
        rnd_before u rnd mode (ToString u text) k safeN)"
    using lt by (simp add: upt_conv_Cons)
  finally show ?case .
qed

lemma yap_pieces_map:
  "fst (yap_pieces u rnd k text opts)
     = map (\<lambda>j. ToString u (opt_prefix (destructure opts))
                @ piece_text u rnd (opt_mode (destructure opts)) (ToString u (dflt text (JStr []))) k j
                @ ToString u (opt_suffix (destructure opts)))
           [0..<yap_safeN u (opt_n (destructure opts))]"
  using yap_loop_pieces [of 0 "yap_safeN u (opt_n (destructure opts))" u rnd "dflt text (JStr [])"
      "opt_mode (destructure opts)" "opt_prefix (destructure opts)" "opt_suffix (destructure opts)" k "[]"]
  by (simp add: yap_pieces_def)

lemma join_length:
  "length (join sep ps) = sum_list (map length ps) + (length ps - 1) * length sep"
  by (induction sep ps rule: join.induct) simp_all

lemma yap_join: "fst (yap u rnd k text opts)
   = join (ToString u (opt_sep (destructure opts))) (fst (yap_pieces u rnd k text opts))"
  by (simp add: yap_def split: prod.splits)

lemma insert_random_mset: "mset (fst (insert_random rnd k x ys)) = add_mset x (mset ys)"
proof (induction ys arbitrary: k)
  case Nil
  then show ?case by simp
next
  case (Cons y ys)
  show ?case
  proof (cases "rnd k - 1 / 2 < 0")
    case True
    then show ?thesis by simp
  next
    case False
    obtain zs k' where r: "insert_random rnd (Suc k) x ys = (zs, k')"
      by (cases "insert_random rnd (Suc k) x ys")
    with Cons.IH [of "Suc k"] have "mset zs = add_mset x (mset ys)" by simp
    with False r show ?thesis by simp
  qed
qed

lemma sort_random_mset: "mset (fst (sort_random rnd k xs acc)) = mset xs + mset acc"
proof (induction xs arbitrary: k acc)
  case Nil
  then show ?case by simp
next
  case (Cons x xs)
  obtain acc' k' where ins: "insert_random rnd k x acc = (acc', k')" by (cases "insert_random rnd k x acc")
  then have "mset acc' = add_mset x (mset acc)" using insert_random_mset [of rnd k x acc] by simp
  with Cons.IH [of k' acc'] ins show ?case by simp
qed

lemma piece_text_caps: "piece_text u rnd (JStr (lit ''caps'')) t k j = toUpperCase u t"
  by (simp add: piece_text_def switch_mode_def)

lemma piece_text_funny:
  "piece_text u rnd (JStr (lit ''funny'')) t k j
     = altCase u t j @ (if j mod 2 = 0 then lit ''!'' else lit ''...'')"
  by (simp add: piece_text_def switch_mode_def)

lemma piece_text_shuffle: "mset (piece_text u rnd (JStr (lit ''shuffle'')) t k j) = mset t"
  by (simp add: piece_text_def switch_mode_def sort_random_mset)

lemma piece_text_echo:
  "mode \<noteq> JStr (lit ''caps'') \<Longrightarrow> mode \<noteq> JStr (lit ''shuffle'') \<Longrightarrow> mode \<noteq> JStr (lit ''funny'')
   \<Longrightarrow> piece_text u rnd mode t k j = t"
  by (simp add: piece_text_def switch_mode_def)

lemma piece_text_deterministic:
  "mode \<noteq> JStr (lit ''shuffle'') \<Longrightarrow> piece_text u rnd mode t k j = piece_text u rnd' mode t k' j"
  by (simp add: piece_text_def switch_mode_def)

section \<open>Properties of yap\<close>

lemmas count_eval = yap_safeN_def parseInt_def or_default_def PACKAGE_MAX_REPEAT_def
  is_ws_def is_digit_def digits_value_def digits.simps number_string_def destructure_def dflt_def

lemmas case_eval = toUpperCase1_def toLowerCase1_def is_lead_def is_trail_def upper_cp_def
  lower_cp_def encode_def encode_cp_def altCase_def latin1_def latin1_upper_def latin1_lower_def

lemmas yap_eval = yap_def yap_pieces_def yap_loop.simps switch_mode_def

text \<open>
  Claim C1. For every text, mode, prefix, suffix and separator, the effective count of
  \<open>yap\<close> lies in 1..200, \<open>yap\<close> builds exactly that many pieces and returns them joined
  by the separator, and piece \<open>j\<close> is the prefix, then the text transformed by the mode,
  then the suffix: the upper-cased text for \<open>caps\<close>, a permutation of the text for
  \<open>shuffle\<close>, the alternating-case text with its marker for \<open>funny\<close>, and the text itself
  for \<open>echo\<close> and any other mode.
\<close>

theorem yap_joins_wrapped_pieces:
  assumes "d = destructure opts" and "t = ToString u (dflt text (JStr []))"
    and "cnt = yap_safeN u (opt_n d)"
  shows "1 \<le> cnt \<and> cnt \<le> 200 \<and>
         length (fst (yap_pieces u rnd k text opts)) = cnt \<and>
         fst (yap u rnd k text opts)
           = join (ToString u (opt_sep d)) (fst (yap_pieces u rnd k text opts)) \<and>
         (\<forall>j<cnt. \<exists>x.
            fst (yap_pieces u rnd k text opts) ! j
              = ToString u (opt_prefix d) @ x @ ToString u (opt_suffix d) \<and>
            (if opt_mode d = JStr (lit ''caps'') then x = toUpperCase u t
             else if opt_mode d = JStr (lit ''shuffle'') then mset x = mset t
             else if opt_mode d = JStr (lit ''funny'')
               then x = altCase u t j @ (if j mod 2 = 0 then lit ''!'' else lit ''...'')
             else x = t))"
proof -
  have bounds: "1 \<le> cnt \<and> cnt \<le> 200"
    unfolding assms by (rule yap_safeN_bounds)
  have len: "length (fst (yap_pieces u rnd k text opts)) = cnt"
    unfolding assms by (simp add: yap_pieces_map)
  have pieces: "\<exists>x. fst (yap_pieces u rnd k text opts) ! j
              = ToString u (opt_prefix d) @ x @ ToString u (opt_suffix d) \<and>
            (if opt_mode d = JStr (lit ''caps'') then x = toUpperCase u t
             else if opt_mode d = JStr (lit ''shuffle'') then mset x = mset t
             else if opt_mode d = JStr (lit ''funny'')
               then x = altCase u t j @ (if j mod 2 = 0 then lit ''!'' else lit ''...'')
             else x = t)" if "j < cnt" for j
  proof -
    let ?x = "piece_text u rnd (opt_mode d) t k j"
    have nth: "fst (yap_pieces u rnd k text opts) ! j
                 = ToString u (opt_prefix d) @ ?x @ ToString u (opt_suffix d)"
      using that unfolding assms by (simp add: yap_pieces_map)
    have "if opt_mode d = JStr (lit ''caps'') then ?x = toUpperCase u t
          else if opt_mode d = JStr (lit ''shuffle'') then mset ?x = mset t
          else if opt_mode d = JStr (lit ''funny'')
            then ?x = altCase u t j @ (if j mod 2 = 0 then lit ''!'' else lit ''...'')
          else ?x = t"
      using piece_text_caps [of u rnd t k j] piece_text_funny [of u rnd t k j]
        piece_text_shuffle [of u rnd t k j] piece_text_echo [of "opt_mode d" u rnd t k j]
      by (simp del: lit_simps)
    with nth show ?thesis by blast
  qed
  from bounds len pieces show ?thesis
    by (simp add: yap_join assms(1))
qed

text \<open>
  Claim C1 at \<open>yap('hi', {n: '2', sep: '-', mode: 'caps', prefix: '['})\<close>: two pieces
  \<open>[HI\<close>, joined to \<open>[HI-[HI\<close>.
\<close>

theorem yap_joins_wrapped_pieces_witness:
  "yap_safeN latin1 (opt_n (destructure
       \<lparr>opt_n = JStr (lit ''2''), opt_sep = JStr (lit ''-''), opt_mode = JStr (lit ''caps''),
        opt_prefix = JStr (lit ''[''), opt_suffix = JUndefined\<rparr>)) = 2
   \<and> fst (yap_pieces latin1 alternating 0 (JStr (lit ''hi''))
       \<lparr>opt_n = JStr (lit ''2''), opt_sep = JStr (lit ''-''), opt_mode = JStr (lit ''caps''),
        opt_prefix = JStr (lit ''[''), opt_suffix = JUndefined\<rparr>) = [lit ''[HI'', lit ''[HI'']
   \<and> fst (yap latin1 alternating 0 (JStr (lit ''hi''))
       \<lparr>opt_n = JStr (lit ''2''), opt_sep = JStr (lit ''-''), opt_mode = JStr (lit ''caps''),
        opt_prefix = JStr (lit ''[''), opt_suffix = JUndefined\<rparr>) = lit ''[HI-[HI''"
proof -
  let ?o = "\<lparr>opt_n = JStr (lit ''2''), opt_sep = JStr (lit ''-''), opt_mode = JStr (lit ''caps''),
        opt_prefix = JStr (lit ''[''), opt_suffix = JUndefined\<rparr>"
  have cnt: "yap_safeN latin1 (opt_n (destructure ?o)) = 2"
    by (simp add: count_eval)
  note th = yap_joins_wrapped_pieces [OF refl refl refl, of latin1 ?o alternating 0 "JStr (lit ''hi'')"]
  from th have len: "length (fst (yap_pieces latin1 alternating 0 (JStr (lit ''hi'')) ?o)) = 2"
    using cnt by simp
  from th cnt have p0: "\<exists>x. fst (yap_pieces latin1 alternating 0 (JStr (lit ''hi'')) ?o) ! 0
       = lit ''['' @ x \<and> x = toUpperCase latin1 (lit ''hi'')"
    by (simp add: destructure_def dflt_def)
  from th cnt have p1: "\<exists>x. fst (yap_pieces latin1 alternating 0 (JStr (lit ''hi'')) ?o) ! 1
       = lit ''['' @ x \<and> x = toUpperCase latin1 (lit ''hi'')"
    by (simp add: destructure_def dflt_def)
  have up: "toUpperCase latin1 (lit ''hi'') = lit ''HI''"
    by (simp add: case_eval)
  have pieces: "fst (yap_pieces latin1 alternating 0 (JStr (lit ''hi'')) ?o) = [lit ''[HI'', lit ''[HI'']"
    using len p0 p1 up by (auto simp: list_eq_iff_nth_eq less_Suc_eq numeral_2_eq_2)
  from th have "fst (yap latin1 alternating 0 (JStr (lit ''hi'')) ?o)
      = join (ToString latin1 (opt_sep (destructure ?o))) (fst (yap_pieces latin1 alternating 0 (JStr (lit ''hi'')) ?o))"
    by simp
  with pieces have "fst (yap latin1 alternating 0 (JStr (lit ''hi'')) ?o) = lit ''[HI-[HI''"
    by (simp add: destructure_def dflt_def)
  with cnt pieces show ?thesis by simp
qed

lemma mode_destructure: "opt_mode opts = JStr m \<Longrightarrow> opt_mode (destructure opts) = JStr m"
  by (simp add: destructure_def dflt_def)

text \<open>
  Claim C4. In mode \<open>shuffle\<close>, whatever the random source returns, every piece is the
  prefix, a permutation of the characters of the text (same multiset of code units, same
  length), and the suffix.
\<close>

theorem shuffle_piece_is_permutation:
  assumes "opt_mode opts = JStr (lit ''shuffle'')"
    and "j < yap_safeN u (opt_n (destructure opts))"
  shows "\<exists>x. fst (yap_pieces u rnd k text opts) ! j
               = ToString u (opt_prefix (destructure opts)) @ x @ ToString u (opt_suffix (destructure opts))
             \<and> mset x = mset (ToString u (dflt text (JStr [])))
             \<and> length x = length (ToString u (dflt text (JStr [])))"
proof -
  let ?t = "ToString u (dflt text (JStr []))"
  let ?x = "piece_text u rnd (JStr (lit ''shuffle'')) ?t k j"
  have m: "opt_mode (destructure opts) = JStr (lit ''shuffle'')"
    using assms(1) by (rule mode_destructure)
  have nth: "fst (yap_pieces u rnd k text opts) ! j
      = ToString u (opt_prefix (destructure opts)) @ ?x @ ToString u (opt_suffix (destructure opts))"
    using assms(2) by (simp add: yap_pieces_map m del: lit_simps)
  have ms: "mset ?x = mset ?t" by (rule piece_text_shuffle)
  then have "length ?x = length ?t" by (rule mset_eq_length)
  with nth ms show ?thesis by blast
qed

text \<open>
  Claim C4 at \<open>yap('abc', {n: 2, mode: 'shuffle'})\<close>, second piece.
\<close>

theorem shuffle_piece_is_permutation_witness:
  "\<exists>x. fst (yap_pieces latin1 alternating 0 (JStr (lit ''abc''))
           \<lparr>opt_n = JInt 2, opt_sep = JUndefined, opt_mode = JStr (lit ''shuffle''),
            opt_prefix = JUndefined, opt_suffix = JUndefined\<rparr>) ! 1 = x
       \<and> mset x = mset (lit ''abc'') \<and> length x = 3"
proof -
  let ?o = "\<lparr>opt_n = JInt 2, opt_sep = JUndefined, opt_mode = JStr (lit ''shuffle''),
            opt_prefix = JUndefined, opt_suffix = JUndefined\<rparr>"
  have m: "opt_mode ?o = JStr (lit ''shuffle'')" by simp
  have c: "1 < yap_safeN latin1 (opt_n (destructure ?o))" by (simp add: count_eval)
  show ?thesis
    using shuffle_piece_is_permutation [OF m c, of alternating 0 "JStr (lit ''abc'')"]
    by (simp add: destructure_def dflt_def)
qed

text \<open>
  Claim C9. For every mode other than \<open>shuffle\<close>, the output of \<open>yap\<close> does not depend on
  the random source or its state: two calls with equal text and options return equal
  strings.
\<close>

theorem yap_deterministic:
  assumes "opt_mode opts \<noteq> JStr (lit ''shuffle'')"
  shows "fst (yap u rnd k text opts) = fst (yap u rnd' k' text opts)"
proof -
  have m: "opt_mode (destructure opts) \<noteq> JStr (lit ''shuffle'')"
    using assms by (simp add: destructure_def dflt_def)
  have "fst (yap_pieces u rnd k text opts) = fst (yap_pieces u rnd' k' text opts)"
    unfolding yap_pieces_map
    using piece_text_deterministic [OF m, of u rnd _ k _ rnd' k'] by simp
  then show ?thesis by (simp add: yap_join)
qed

text \<open>
  Claim C9 at \<open>yap('ab', {n: 2, mode: 'funny'})\<close> under two different random sources.
\<close>

theorem yap_deterministic_witness:
  "fst (yap latin1 alternating 0 (JStr (lit ''ab''))
         \<lparr>opt_n = JInt 2, opt_sep = JUndefined, opt_mode = JStr (lit ''funny''),
          opt_prefix = JUndefined, opt_suffix = JUndefined\<rparr>)
   = fst (yap latin1 steady 7 (JStr (lit ''ab''))
         \<lparr>opt_n = JInt 2, opt_sep = JUndefined, opt_mode = JStr (lit ''funny''),
          opt_prefix = JUndefined, opt_suffix = JUndefined\<rparr>)
   \<and> fst (yap latin1 alternating 0 (JStr (lit ''ab''))
         \<lparr>opt_n = JInt 2, opt_sep = JUndefined, opt_mode = JStr (lit ''funny''),
          opt_prefix = JUndefined, opt_suffix = JUndefined\<rparr>) = lit ''Ab! aB...''"
proof -
  let ?o = "\<lparr>opt_n = JInt 2, opt_sep = JUndefined, opt_mode = JStr (lit ''funny''),
          opt_prefix = JUndefined, opt_suffix = JUndefined\<rparr>"
  have m: "opt_mode ?o \<noteq> JStr (lit ''shuffle'')" by simp
  have e: "fst (yap latin1 steady 7 (JStr (lit ''ab'')) ?o) = lit ''Ab! aB...''"
    apply (simp add: yap_eval count_eval)
    apply (simp add: yap_eval numeral_2_eq_2 case_eval enumerate_eq_zip)
    done
  show ?thesis
    using yap_deterministic [OF m, of latin1 alternating 0 "JStr (lit ''ab'')" steady 7] e
    by simp
qed

lemma altCase_index:
  "altCase u s i
     = concat (map (\<lambda>idx. if idx mod 2 = i mod 2 then toUpperCase1 u (s ! idx)
                           else toLowerCase1 u (s ! idx)) [0..<length s])"
proof -
  have "map (\<lambda>(idx, ch). if idx mod 2 = i mod 2 then toUpperCase1 u ch else toLowerCase1 u ch)
          (enumerate 0 s)
      = map (\<lambda>idx. if idx mod 2 = i mod 2 then toUpperCase1 u (s ! idx)
                    else toLowerCase1 u (s ! idx)) [0..<length s]"
    by (rule nth_equalityI) (simp_all add: nth_enumerate_eq)
  then show ?thesis by (simp add: altCase_def)
qed

lemma sum_list_ones: "(\<forall>x\<in>set xs. f x = (1::nat)) \<Longrightarrow> sum_list (map f xs) = length xs"
  by (induction xs) auto

lemma altCase_length:
  assumes "\<forall>c\<in>set s. length (toUpperCase1 u c) = 1 \<and> length (toLowerCase1 u c) = 1"
  shows "length (altCase u s i) = length s"
proof -
  have "\<forall>idx\<in>set [0..<length s].
          length (if idx mod 2 = i mod 2 then toUpperCase1 u (s ! idx)
                  else toLowerCase1 u (s ! idx)) = 1"
    using assms by auto
  then have "sum_list (map (\<lambda>idx. length (if idx mod 2 = i mod 2 then toUpperCase1 u (s ! idx)
                  else toLowerCase1 u (s ! idx))) [0..<length s]) = length [0..<length s]"
    by (rule sum_list_ones)
  then show ?thesis
    by (simp add: altCase_index length_concat comp_def)
qed

lemma ascii_case_single:
  "c < 128 \<Longrightarrow> length (toUpperCase1 u c) = 1 \<and> length (toLowerCase1 u c) = 1"
  by (auto simp: toUpperCase1_def toLowerCase1_def is_lead_def is_trail_def upper_cp_def
      lower_cp_def encode_def encode_cp_def)

text \<open>
  Claim C3, as amended. In mode \<open>funny\<close>, piece \<open>i\<close> is the prefix, then for every position
  \<open>idx\<close> of the text the upper-case form of its code unit when \<open>idx mod 2 = i mod 2\<close> and
  the lower-case form otherwise, then the marker (\<open>!\<close> for even \<open>i\<close>, \<open>...\<close> for odd \<open>i\<close>),
  then the suffix. The length of the piece is the length of the text plus the length of
  the marker (and of prefix and suffix) when every code unit of the text has upper- and
  lower-case forms of one code unit, which holds for ASCII text.
\<close>

theorem funny_piece:
  assumes "opt_mode opts = JStr (lit ''funny'')"
    and "i < yap_safeN u (opt_n (destructure opts))"
    and "s = ToString u (dflt text (JStr []))"
    and "piece = fst (yap_pieces u rnd k text opts) ! i"
    and "marker = (if i mod 2 = 0 then lit ''!'' else lit ''...'')"
  shows "piece = ToString u (opt_prefix (destructure opts))
                 @ concat (map (\<lambda>idx. if idx mod 2 = i mod 2 then toUpperCase1 u (s ! idx)
                                       else toLowerCase1 u (s ! idx)) [0..<length s])
                 @ marker @ ToString u (opt_suffix (destructure opts))
         \<and> ((\<forall>c\<in>set s. length (toUpperCase1 u c) = 1 \<and> length (toLowerCase1 u c) = 1) \<longrightarrow>
              length piece = length (ToString u (opt_prefix (destructure opts))) + length s
                             + length marker + length (ToString u (opt_suffix (destructure opts))))
         \<and> ((\<forall>c\<in>set s. c < 128) \<longrightarrow>
              length piece = length (ToString u (opt_prefix (destructure opts))) + length s
                             + length marker + length (ToString u (opt_suffix (destructure opts))))"
proof -
  have m: "opt_mode (destructure opts) = JStr (lit ''funny'')"
    using assms(1) by (rule mode_destructure)
  have nth: "piece = ToString u (opt_prefix (destructure opts))
                 @ (altCase u s i @ marker) @ ToString u (opt_suffix (destructure opts))"
    using assms(2) unfolding assms(3,4,5)
    by (simp add: yap_pieces_map m piece_text_funny del: lit_simps)
  have len: "length piece = length (ToString u (opt_prefix (destructure opts))) + length s
                             + length marker + length (ToString u (opt_suffix (destructure opts)))"
    if "\<forall>c\<in>set s. length (toUpperCase1 u c) = 1 \<and> length (toLowerCase1 u c) = 1"
    using altCase_length [OF that, of i] nth by simp
  have ascii: "\<forall>c\<in>set s. length (toUpperCase1 u c) = 1 \<and> length (toLowerCase1 u c) = 1"
    if "\<forall>c\<in>set s. c < 128"
    using that ascii_case_single by blast
  from nth len ascii show ?thesis
    by (simp add: altCase_index)
qed

text \<open>
  Claim C3 at \<open>yap('ab', {n: 2, mode: 'funny'})\<close>, second piece: \<open>aB...\<close> of length 2 + 3.
\<close>

theorem funny_piece_witness:
  "fst (yap_pieces latin1 alternating 0 (JStr (lit ''ab''))
         \<lparr>opt_n = JInt 2, opt_sep = JUndefined, opt_mode = JStr (lit ''funny''),
          opt_prefix = JUndefined, opt_suffix = JUndefined\<rparr>) ! 1 = lit ''aB...''
   \<and> length (fst (yap_pieces latin1 alternating 0 (JStr (lit ''ab''))
         \<lparr>opt_n = JInt 2, opt_sep = JUndefined, opt_mode = JStr (lit ''funny''),
          opt_prefix = JUndefined, opt_suffix = JUndefined\<rparr>) ! 1) = 2 + 3"
proof -
  let ?o = "\<lparr>opt_n = JInt 2, opt_sep = JUndefined, opt_mode = JStr (lit ''funny''),
          opt_prefix = JUndefined, opt_suffix = JUndefined\<rparr>"
  have m: "opt_mode ?o = JStr (lit ''funny'')" by simp
  have c: "1 < yap_safeN latin1 (opt_n (destructure ?o))" by (simp add: count_eval)
  have a: "\<forall>c\<in>set (ToString latin1 (dflt (JStr (lit ''ab'')) (JStr []))). c < 128"
    by (simp add: dflt_def)
  have s: "[0..<2] = [0, 1]" by (simp add: upt_rec)
  note th = funny_piece [OF m c refl refl refl, of alternating 0 "JStr (lit ''ab'')"]
  from th have "fst (yap_pieces latin1 alternating 0 (JStr (lit ''ab'')) ?o) ! 1 = lit ''aB...''"
    by (simp add: destructure_def dflt_def case_eval s)
  moreover from th a
  have "length (fst (yap_pieces latin1 alternating 0 (JStr (lit ''ab'')) ?o) ! 1) = 2 + 3"
    by (simp add: destructure_def dflt_def case_eval s)
  ultimately show ?thesis by simp
qed

text \<open>
  Claim C3 as stated fails on the text U+00DF (sharp s): its upper-case form is \<open>SS\<close>, so
  the first piece is \<open>SS!\<close>, of length 3, while the input length plus the marker length
  is 2.
\<close>

theorem funny_length_counterexample:
  "fst (yap_pieces latin1 alternating 0 (JStr [223])
         \<lparr>opt_n = JInt 1, opt_sep = JUndefined, opt_mode = JStr (lit ''funny''),
          opt_prefix = JUndefined, opt_suffix = JUndefined\<rparr>) ! 0 = lit ''SS!''
   \<and> length (fst (yap_pieces latin1 alternating 0 (JStr [223])
         \<lparr>opt_n = JInt 1, opt_sep = JUndefined, opt_mode = JStr (lit ''funny''),
          opt_prefix = JUndefined, opt_suffix = JUndefined\<rparr>) ! 0)
       \<noteq> length [223 :: nat] + length (lit ''!'')"
proof -
  have "fst (yap_pieces latin1 alternating 0 (JStr [223])
         \<lparr>opt_n = JInt 1, opt_sep = JUndefined, opt_mode = JStr (lit ''funny''),
          opt_prefix = JUndefined, opt_suffix = JUndefined\<rparr>) = [lit ''SS!'']"
    apply (simp add: yap_eval count_eval)
    apply (simp add: yap_eval case_eval enumerate_eq_zip)
    done
  then show ?thesis by simp
qed

section \<open>The bot runner, the integration stub and the HTTP server\<close>

text \<open>
  Claim C5. From the flag not set, \<open>startBot\<close> succeeds and sets it; \<open>startBot\<close> with the
  flag set resolves to \<open>{ok: false, error: 'bot already running'}\<close> and leaves the flag
  set; \<open>stopBot\<close> with the flag not set resolves to \<open>{ok: false, error: 'bot not
  running'}\<close> and leaves it so; \<open>stopBot\<close> with the flag set succeeds and clears it. The
  sequence start, start, stop, stop therefore gives success, failure, success, failure.
  In every state both promises resolve: neither function throws.
\<close>

theorem bot_lifecycle:
  "startBot d opts False
     = (Resolved \<lparr>ok = True, info = Some (lit ''bot started''), error = None,
                  config = Some (d ++ opts)\<rparr>, True)
   \<and> startBot d opts True
     = (Resolved \<lparr>ok = False, info = None, error = Some (lit ''bot already running''),
                  config = None\<rparr>, True)
   \<and> stopBot False
     = (Resolved \<lparr>ok = False, info = None, error = Some (lit ''bot not running''),
                  config = None\<rparr>, False)
   \<and> stopBot True
     = (Resolved \<lparr>ok = True, info = Some (lit ''bot stopped''), error = None, config = None\<rparr>,
        False)
   \<and> run_calls d [Start opts, Start opts', Stop, Stop] False
     = ([Resolved \<lparr>ok = True, info = Some (lit ''bot started''), error = None,
                    config = Some (d ++ opts)\<rparr>,
         Resolved \<lparr>ok = False, info = None, error = Some (lit ''bot already running''),
                    config = None\<rparr>,
         Resolved \<lparr>ok = True, info = Some (lit ''bot stopped''), error = None, config = None\<rparr>,
         Resolved \<lparr>ok = False, info = None, error = Some (lit ''bot not running''),
                    config = None\<rparr>], False)
   \<and> (\<exists>r. fst (startBot d opts running) = Resolved r)
   \<and> (\<exists>r. fst (stopBot running) = Resolved r)"
  by (simp add: startBot_def stopBot_def del: lit_simps)

text \<open>
  Claim C8. For every text and configuration, \<open>integrateWithService\<close> resolves to
  \<open>{ok: true, info: ...}\<close> with no \<open>error\<close> field; it never rejects.
\<close>

theorem integrateWithService_succeeds:
  "integrateWithService transformedText cfg
     = Resolved \<lparr>ok = True,
                 info = Some (lit ''simulated-send (fill integrateWithService with real code)''),
                 error = None, config = None\<rparr>"
  by (simp add: integrateWithService_def sleep_def del: lit_simps)

lemma handler_found:
  assumes "pathname req = lit ''/'' \<or> pathname req = lit ''/yap''"
  shows "handler u rnd k d req
     = (Some \<lparr>status = 200, headers = json_headers,
              body = \<lparr>env_ok = True,
                      env_payload = Some (fst (yap u rnd k (server_msg (query req)) (server_opts u (query req)))),
                      env_sendRes = Some \<lparr>ok = True,
                         info = Some (lit ''simulated-send (fill integrateWithService with real code)''),
                         error = None, config = None\<rparr>,
                      env_error = None\<rparr>\<rparr>,
        snd (yap u rnd k (server_msg (query req)) (server_opts u (query req))))"
  using assms
  by (auto simp add: handler_def integrateWithService_def sleep_def split: prod.splits simp del: lit_simps)

text \<open>
  Claim C6. The request \<open>/yap?msg=hi&n=2&mode=caps\<close> is answered with status 200 and the
  body \<open>{ok: true, payload: 'HI HI', sendRes: ...}\<close>, whatever the case tables, the random
  source and the configuration.
\<close>

theorem get_yap_hi_2_caps:
  "handler u rnd k d
     \<lparr>pathname = lit ''/yap'',
      query = [lit ''msg'' \<mapsto> lit ''hi'', lit ''n'' \<mapsto> lit ''2'', lit ''mode'' \<mapsto> lit ''caps'']\<rparr>
   = (Some \<lparr>status = 200,
            headers = [(lit ''Content-Type'', lit ''application/json; charset=utf-8'')],
            body = \<lparr>env_ok = True, env_payload = Some (lit ''HI HI''),
                    env_sendRes = Some \<lparr>ok = True,
                       info = Some (lit ''simulated-send (fill integrateWithService with real code)''),
                       error = None, config = None\<rparr>,
                    env_error = None\<rparr>\<rparr>, k)"
proof -
  let ?q = "[lit ''msg'' \<mapsto> lit ''hi'', lit ''n'' \<mapsto> lit ''2'', lit ''mode'' \<mapsto> lit ''caps'']"
  have msg: "server_msg ?q = JStr (lit ''hi'')"
    by (simp add: server_msg_def qget_def js_or_def)
  have opts: "server_opts u ?q
      = \<lparr>opt_n = JInt 2, opt_sep = JStr (lit '' ''), opt_mode = JStr (lit ''caps''),
         opt_prefix = JStr [], opt_suffix = JStr []\<rparr>"
    by (simp add: server_opts_def qget_def js_or_def server_safeN_def count_eval)
  have y: "yap u rnd k (JStr (lit ''hi''))
             \<lparr>opt_n = JInt 2, opt_sep = JStr (lit '' ''), opt_mode = JStr (lit ''caps''),
              opt_prefix = JStr [], opt_suffix = JStr []\<rparr> = (lit ''HI HI'', k)"
    apply (simp add: yap_eval count_eval)
    apply (simp add: yap_eval numeral_2_eq_2 toUpperCase1_def is_lead_def is_trail_def
        upper_cp_def encode_def encode_cp_def)
    done
  show ?thesis
    by (simp add: handler_found msg opts y json_headers_def del: lit_simps)
qed

text \<open>
  Claim C7. A request whose path is neither \<open>/\<close> nor \<open>/yap\<close> is answered with status 404,
  content type \<open>application/json; charset=utf-8\<close> and the body \<open>{ok: false, error: 'not
  found'}\<close>; a request to \<open>/\<close> or \<open>/yap\<close> is answered with status 200, the same content
  type and a body with \<open>ok: true\<close>.
\<close>

theorem handler_routes:
  "(pathname req \<noteq> lit ''/'' \<and> pathname req \<noteq> lit ''/yap'' \<longrightarrow>
      handler u rnd k d req
        = (Some \<lparr>status = 404,
                 headers = [(lit ''Content-Type'', lit ''application/json; charset=utf-8'')],
                 body = \<lparr>env_ok = False, env_payload = None, env_sendRes = None,
                         env_error = Some (lit ''not found'')\<rparr>\<rparr>, k))
   \<and> (pathname req = lit ''/'' \<or> pathname req = lit ''/yap'' \<longrightarrow>
      (\<exists>r. fst (handler u rnd k d req) = Some r \<and> status r = 200
           \<and> headers r = [(lit ''Content-Type'', lit ''application/json; charset=utf-8'')]
           \<and> env_ok (body r) = True))"
proof (intro conjI impI)
  assume "pathname req \<noteq> lit ''/'' \<and> pathname req \<noteq> lit ''/yap''"
  then show "handler u rnd k d req
        = (Some \<lparr>status = 404,
                 headers = [(lit ''Content-Type'', lit ''application/json; charset=utf-8'')],
                 body = \<lparr>env_ok = False, env_payload = None, env_sendRes = None,
                         env_error = Some (lit ''not found'')\<rparr>\<rparr>, k)"
    by (simp add: handler_def json_headers_def del: lit_simps)
next
  assume "pathname req = lit ''/'' \<or> pathname req = lit ''/yap''"
  then show "\<exists>r. fst (handler u rnd k d req) = Some r \<and> status r = 200
           \<and> headers r = [(lit ''Content-Type'', lit ''application/json; charset=utf-8'')]
           \<and> env_ok (body r) = True"
    by (simp add: handler_found json_headers_def del: lit_simps)
qed

text \<open>
  Claim C7 at the paths \<open>/nope\<close> and \<open>/\<close>.
\<close>

theorem handler_routes_witness:
  "fst (handler latin1 alternating 0 Map.empty \<lparr>pathname = lit ''/nope'', query = Map.empty\<rparr>)
     = Some \<lparr>status = 404,
             headers = [(lit ''Content-Type'', lit ''application/json; charset=utf-8'')],
             body = \<lparr>env_ok = False, env_payload = None, env_sendRes = None,
                     env_error = Some (lit ''not found'')\<rparr>\<rparr>
   \<and> (\<exists>r. fst (handler latin1 alternating 0 Map.empty \<lparr>pathname = lit ''/'', query = Map.empty\<rparr>)
            = Some r \<and> status r = 200 \<and> env_ok (body r) = True)"
  using handler_routes [of "\<lparr>pathname = lit ''/nope'', query = Map.empty\<rparr>" latin1 alternating 0 Map.empty]
    handler_routes [of "\<lparr>pathname = lit ''/'', query = Map.empty\<rparr>" latin1 alternating 0 Map.empty]
  by auto

lemma server_msg_drop_empty:
  assumes "q key = Some []"
  shows "server_msg (q(key := None)) = server_msg q"
  using assms by (auto simp: server_msg_def qget_def js_or_def simp del: lit_simps)

lemma server_opts_drop_empty:
  assumes "q key = Some []"
  shows "server_opts u (q(key := None)) = server_opts u q"
  using assms by (auto simp: server_opts_def qget_def js_or_def simp del: lit_simps)

lemma server_count_default:
  assumes "\<not> truthy (qget q ''n'')" and "\<not> truthy (qget q ''count'')"
  shows "yap_safeN u (opt_n (destructure (server_opts u q))) = 1"
proof -
  have "server_safeN u (JInt 1) = 1"
    by (simp add: server_safeN_def parseInt_JInt or_default_def PACKAGE_MAX_REPEAT_def)
  with assms have "opt_n (destructure (server_opts u q)) = JInt 1"
    by (simp add: server_opts_def destructure_def dflt_def js_or_def)
  then show ?thesis
    by (simp add: yap_safeN_def parseInt_JInt or_default_def PACKAGE_MAX_REPEAT_def)
qed

lemma server_count_zero:
  assumes "q (lit ''n'') = Some (lit ''0'')"
  shows "yap_safeN u (opt_n (destructure (server_opts u q))) = 1"
proof -
  have n: "qget q ''n'' = JStr (lit ''0'')" using assms by (simp add: qget_def)
  have "server_safeN u (JStr (lit ''0'')) = 1"
    by (simp add: server_safeN_def count_eval)
  with n have "opt_n (destructure (server_opts u q)) = JInt 1"
    by (simp add: server_opts_def destructure_def dflt_def js_or_def)
  then show ?thesis
    by (simp add: yap_safeN_def parseInt_JInt or_default_def PACKAGE_MAX_REPEAT_def)
qed

lemma server_sep_nonempty: "ToString u (opt_sep (destructure (server_opts u q))) \<noteq> []"
  by (simp add: server_opts_def destructure_def dflt_def js_or_def qget_def split: option.splits)

lemma server_count_from_count:
  assumes "q (lit ''n'') = Some [] \<or> q (lit ''n'') = None"
  shows "opt_n (server_opts u q) = JInt (server_safeN u (js_or (qget q ''count'') (JInt 1)))"
proof -
  from assms have "\<not> truthy (qget q ''n'')" by (auto simp: qget_def)
  then show ?thesis by (simp add: server_opts_def js_or_def)
qed

text \<open>
  Claim C10, as amended. A query parameter that is present with the empty string as its
  value can be removed from the query without changing what the handler does. In
  particular an empty \<open>sep\<close> gives the separator \<open>' '\<close> and an empty \<open>mode\<close> gives \<open>echo\<close>;
  with \<open>n\<close> empty or absent the count is the one \<open>count\<close> gives, which is 1 when \<open>count\<close>
  is empty or absent too; \<open>n=0\<close> gives the effective count 1. The separator the handler
  passes on is never the empty string.
\<close>

theorem empty_parameter_is_absent:
  "(query req key = Some [] \<longrightarrow>
      handler u rnd k d req = handler u rnd k d (req\<lparr>query := (query req)(key := None)\<rparr>))
   \<and> (q (lit ''sep'') = Some [] \<longrightarrow> opt_sep (destructure (server_opts u q)) = JStr (lit '' ''))
   \<and> (q (lit ''mode'') = Some [] \<longrightarrow> opt_mode (destructure (server_opts u q)) = JStr (lit ''echo''))
   \<and> (q (lit ''n'') = Some [] \<or> q (lit ''n'') = None \<longrightarrow>
        opt_n (server_opts u q) = JInt (server_safeN u (js_or (qget q ''count'') (JInt 1)))
        \<and> yap_safeN u (opt_n (destructure (server_opts u q)))
            = nat (server_safeN u (js_or (qget q ''count'') (JInt 1))))
   \<and> ((q (lit ''n'') = Some [] \<or> q (lit ''n'') = None)
        \<and> (q (lit ''count'') = Some [] \<or> q (lit ''count'') = None) \<longrightarrow>
        yap_safeN u (opt_n (destructure (server_opts u q))) = 1)
   \<and> (q (lit ''n'') = Some (lit ''0'') \<longrightarrow> yap_safeN u (opt_n (destructure (server_opts u q))) = 1)
   \<and> ToString u (opt_sep (destructure (server_opts u q))) \<noteq> []"
proof (intro conjI impI)
  assume "query req key = Some []"
  then show "handler u rnd k d req = handler u rnd k d (req\<lparr>query := (query req)(key := None)\<rparr>)"
    by (simp add: handler_def server_msg_drop_empty server_opts_drop_empty del: lit_simps)
next
  assume "q (lit ''sep'') = Some []"
  then show "opt_sep (destructure (server_opts u q)) = JStr (lit '' '')"
    by (simp add: server_opts_def destructure_def dflt_def js_or_def qget_def)
next
  assume "q (lit ''mode'') = Some []"
  then show "opt_mode (destructure (server_opts u q)) = JStr (lit ''echo'')"
    by (simp add: server_opts_def destructure_def dflt_def js_or_def qget_def)
next
  assume n: "q (lit ''n'') = Some [] \<or> q (lit ''n'') = None"
  then show "opt_n (server_opts u q) = JInt (server_safeN u (js_or (qget q ''count'') (JInt 1)))"
    by (rule server_count_from_count)
next
  assume n: "q (lit ''n'') = Some [] \<or> q (lit ''n'') = None"
  then have "opt_n (destructure (server_opts u q))
               = JInt (server_safeN u (js_or (qget q ''count'') (JInt 1)))"
    by (simp add: server_count_from_count destructure_def dflt_def del: lit_simps)
  then show "yap_safeN u (opt_n (destructure (server_opts u q)))
               = nat (server_safeN u (js_or (qget q ''count'') (JInt 1)))"
    by (simp add: yap_safeN_server del: lit_simps)
next
  assume "(q (lit ''n'') = Some [] \<or> q (lit ''n'') = None)
        \<and> (q (lit ''count'') = Some [] \<or> q (lit ''count'') = None)"
  then have "\<not> truthy (qget q ''n'')" and "\<not> truthy (qget q ''count'')"
    by (auto simp: qget_def)
  then show "yap_safeN u (opt_n (destructure (server_opts u q))) = 1"
    by (rule server_count_default)
next
  assume "q (lit ''n'') = Some (lit ''0'')"
  then show "yap_safeN u (opt_n (destructure (server_opts u q))) = 1"
    by (rule server_count_zero)
next
  show "ToString u (opt_sep (destructure (server_opts u q))) \<noteq> []"
    by (rule server_sep_nonempty)
qed

text \<open>
  Claim C10 at \<open>/yap?msg=hi&sep=\<close> against \<open>/yap?msg=hi\<close>, and at the queries \<open>sep=\<close>,
  \<open>mode=\<close>, \<open>n=&count=4\<close>, \<open>n=\<close> and \<open>n=0\<close>.
\<close>

theorem empty_parameter_is_absent_witness:
  "handler latin1 alternating 0 Map.empty
      \<lparr>pathname = lit ''/yap'', query = [lit ''msg'' \<mapsto> lit ''hi'', lit ''sep'' \<mapsto> []]\<rparr>
     = handler latin1 alternating 0 Map.empty
      \<lparr>pathname = lit ''/yap'', query = [lit ''msg'' \<mapsto> lit ''hi'']\<rparr>
   \<and> opt_sep (destructure (server_opts latin1 [lit ''sep'' \<mapsto> []])) = JStr (lit '' '')
   \<and> opt_mode (destructure (server_opts latin1 [lit ''mode'' \<mapsto> []])) = JStr (lit ''echo'')
   \<and> opt_n (server_opts latin1 [lit ''n'' \<mapsto> [], lit ''count'' \<mapsto> lit ''4'']) = JInt 4
   \<and> yap_safeN latin1 (opt_n (destructure (server_opts latin1 [lit ''n'' \<mapsto> []]))) = 1
   \<and> yap_safeN latin1 (opt_n (destructure (server_opts latin1 [lit ''n'' \<mapsto> lit ''0'']))) = 1"
proof -
  have q: "[lit ''msg'' \<mapsto> lit ''hi''](lit ''sep'' := None) = [lit ''msg'' \<mapsto> lit ''hi'']"
    by (rule ext) simp
  have a: "handler latin1 alternating 0 Map.empty
      \<lparr>pathname = lit ''/yap'', query = [lit ''msg'' \<mapsto> lit ''hi'', lit ''sep'' \<mapsto> []]\<rparr>
     = handler latin1 alternating 0 Map.empty
      \<lparr>pathname = lit ''/yap'', query = [lit ''msg'' \<mapsto> lit ''hi'']\<rparr>"
    using empty_parameter_is_absent
      [of "\<lparr>pathname = lit ''/yap'', query = [lit ''msg'' \<mapsto> lit ''hi'', lit ''sep'' \<mapsto> []]\<rparr>"
          "lit ''sep''" latin1 alternating 0 Map.empty Map.empty]
    by (simp add: q del: lit_simps)
  have b: "opt_sep (destructure (server_opts latin1 [lit ''sep'' \<mapsto> []])) = JStr (lit '' '')"
    using empty_parameter_is_absent [of "\<lparr>pathname = [], query = Map.empty\<rparr>" "lit ''x''" latin1 alternating 0 Map.empty "[lit ''sep'' \<mapsto> []]"]
    by simp
  have c: "opt_mode (destructure (server_opts latin1 [lit ''mode'' \<mapsto> []])) = JStr (lit ''echo'')"
    using empty_parameter_is_absent [of "\<lparr>pathname = [], query = Map.empty\<rparr>" "lit ''x''" latin1 alternating 0 Map.empty "[lit ''mode'' \<mapsto> []]"]
    by simp
  have s4: "server_safeN latin1 (JStr (lit ''4'')) = 4"
    by (simp add: server_safeN_def count_eval)
  have f: "opt_n (server_opts latin1 [lit ''n'' \<mapsto> [], lit ''count'' \<mapsto> lit ''4'']) = JInt 4"
    using empty_parameter_is_absent [of "\<lparr>pathname = [], query = Map.empty\<rparr>" "lit ''x''" latin1 alternating 0 Map.empty
        "[lit ''n'' \<mapsto> [], lit ''count'' \<mapsto> lit ''4'']"] s4
    by (simp add: qget_def js_or_def)
  have d: "yap_safeN latin1 (opt_n (destructure (server_opts latin1 [lit ''n'' \<mapsto> []]))) = 1"
    using empty_parameter_is_absent [of "\<lparr>pathname = [], query = Map.empty\<rparr>" "lit ''x''" latin1 alternating 0 Map.empty "[lit ''n'' \<mapsto> []]"]
    by simp
  have e: "yap_safeN latin1 (opt_n (destructure (server_opts latin1 [lit ''n'' \<mapsto> lit ''0'']))) = 1"
    using empty_parameter_is_absent [of "\<lparr>pathname = [], query = Map.empty\<rparr>" "lit ''x''" latin1 alternating 0 Map.empty "[lit ''n'' \<mapsto> lit ''0'']"]
    by simp
  from a b c f d e show ?thesis by (simp del: lit_simps)
qed

text \<open>
  Claim C10 as stated fails on \<open>/yap?msg=x&n=&count=4\<close>: with \<open>n\<close> empty, line 132 falls
  through to \<open>count\<close>, so the effective count is 4 and the payload has four copies, not
  one.
\<close>

theorem empty_n_with_count_counterexample:
  "query \<lparr>pathname = lit ''/yap'',
           query = [lit ''msg'' \<mapsto> lit ''x'', lit ''n'' \<mapsto> [], lit ''count'' \<mapsto> lit ''4'']\<rparr>
       (lit ''n'') = Some []
   \<and> yap_safeN latin1 (opt_n (destructure (server_opts latin1
         [lit ''msg'' \<mapsto> lit ''x'', lit ''n'' \<mapsto> [], lit ''count'' \<mapsto> lit ''4'']))) \<noteq> 1
   \<and> fst (handler latin1 alternating 0 Map.empty
         \<lparr>pathname = lit ''/yap'',
          query = [lit ''msg'' \<mapsto> lit ''x'', lit ''n'' \<mapsto> [], lit ''count'' \<mapsto> lit ''4'']\<rparr>)
     = Some \<lparr>status = 200,
              headers = [(lit ''Content-Type'', lit ''application/json; charset=utf-8'')],
              body = \<lparr>env_ok = True, env_payload = Some (lit ''x x x x''),
                      env_sendRes = Some \<lparr>ok = True,
                         info = Some (lit ''simulated-send (fill integrateWithService with real code)''),
                         error = None, config = None\<rparr>,
                      env_error = None\<rparr>\<rparr>"
proof -
  let ?q = "[lit ''msg'' \<mapsto> lit ''x'', lit ''n'' \<mapsto> [], lit ''count'' \<mapsto> lit ''4'']"
  have msg: "server_msg ?q = JStr (lit ''x'')"
    by (simp add: server_msg_def qget_def js_or_def)
  have opts: "server_opts latin1 ?q
      = \<lparr>opt_n = JInt 4, opt_sep = JStr (lit '' ''), opt_mode = JStr (lit ''echo''),
         opt_prefix = JStr [], opt_suffix = JStr []\<rparr>"
    by (simp add: server_opts_def qget_def js_or_def server_safeN_def count_eval)
  have cnt: "yap_safeN latin1 (opt_n (destructure (server_opts latin1 ?q))) = 4"
    by (simp add: opts count_eval del: lit_simps)
  have y: "fst (yap latin1 alternating 0 (JStr (lit ''x''))
             \<lparr>opt_n = JInt 4, opt_sep = JStr (lit '' ''), opt_mode = JStr (lit ''echo''),
              opt_prefix = JStr [], opt_suffix = JStr []\<rparr>) = lit ''x x x x''"
    by (simp add: yap_eval count_eval)
  have h: "fst (handler latin1 alternating 0 Map.empty \<lparr>pathname = lit ''/yap'', query = ?q\<rparr>)
     = Some \<lparr>status = 200,
              headers = [(lit ''Content-Type'', lit ''application/json; charset=utf-8'')],
              body = \<lparr>env_ok = True, env_payload = Some (lit ''x x x x''),
                      env_sendRes = Some \<lparr>ok = True,
                         info = Some (lit ''simulated-send (fill integrateWithService with real code)''),
                         error = None, config = None\<rparr>,
                      env_error = None\<rparr>\<rparr>"
    by (simp add: handler_found msg opts y json_headers_def del: lit_simps)
  have n: "query \<lparr>pathname = lit ''/yap'', query = ?q\<rparr> (lit ''n'') = Some []"
    by simp
  from n cnt h show ?thesis by (simp del: lit_simps fun_upd_apply)
qed

text \<open>
  Claim C2 at the count 0. \<open>parseInt\<close> returns 0, which is falsy, so \<open>|| 3\<close> replaces it
  by the default before the clamp to \<open>[1, 200]\<close> is applied: \<open>yap('x', {n: 0})\<close> and the
  command line \<open>x -n 0\<close> both give three copies, not one.
\<close>

theorem zero_count_yields_three:
  "yap_safeN u (JInt 0) = 3
   \<and> yap_safeN u (JStr (lit ''0'')) = 3
   \<and> fst (yap u rnd k (JStr (lit ''x''))
        \<lparr>opt_n = JInt 0, opt_sep = JUndefined, opt_mode = JUndefined,
         opt_prefix = JUndefined, opt_suffix = JUndefined\<rparr>) = lit ''x x x''
   \<and> cli_main u rnd k [lit ''x'', lit ''-n'', lit ''0''] = Some (lit ''x x x'')"
proof -
  have a: "yap_safeN u (JInt 0) = 3" by (simp add: count_eval)
  have b: "yap_safeN u (JStr (lit ''0'')) = 3" by (simp add: count_eval)
  have l: "fst (yap_loop u rnd (JStr (lit ''x'')) (JStr (lit ''echo'')) (JStr []) (JStr []) 3 0 k [])
            = [lit ''x'', lit ''x'', lit ''x'']"
    by (simp add: yap_loop.simps switch_mode_def numeral_3_eq_3)
  obtain k' where yl:
    "yap_loop u rnd (JStr (lit ''x'')) (JStr (lit ''echo'')) (JStr []) (JStr []) 3 0 k []
       = ([lit ''x'', lit ''x'', lit ''x''], k')"
    using l by (cases "yap_loop u rnd (JStr (lit ''x'')) (JStr (lit ''echo'')) (JStr []) (JStr []) 3 0 k []") simp
  have c: "fst (yap u rnd k (JStr (lit ''x''))
        \<lparr>opt_n = JInt 0, opt_sep = JUndefined, opt_mode = JUndefined,
         opt_prefix = JUndefined, opt_suffix = JUndefined\<rparr>) = lit ''x x x''"
    using yl by (simp add: yap_def yap_pieces_def destructure_def dflt_def a)
  have d: "cli_main u rnd k [lit ''x'', lit ''-n'', lit ''0''] = Some (lit ''x x x'')"
    using yl b
    by (simp add: cli_main_def starts_with_def fget_def js_or_def cli_text_def cli_opts_def yap_def
        yap_pieces_def destructure_def dflt_def)
  from a b c d show ?thesis by (simp del: lit_simps)
qed

end
